theory Spec2Isabelle
  imports Complex_Main "HOL-Library.Word" "HOL-Library.Multiset"
begin

section \<open>The insertion-order test of \<open>ultranest/ordertest.py\<close>\<close>

text \<open>
  The module keeps a histogram of insertion ranks (a numpy array of \<open>uint32\<close>) and a
  running sum \<open>U\<close> of the terms \<open>(rank + 0.5) / N\<close>, and derives from both the z-score
  of a Mann-Whitney-Wilcoxon U test against the uniform distribution.

  Conventions of the embedding:
  \<^item> Python integers (\<open>rank\<close>, \<open>N\<close>) are \<open>int\<close>.
  \<^item> The histogram is a list of \<open>32 word\<close>: \<open>+= 1\<close> on a \<open>uint32\<close> cell wraps around.
    \<open>histogram.sum()\<close> accumulates in \<open>uint64\<close>, a \<open>64 word\<close>.
  \<^item> Floating-point numbers are real numbers and every floating-point operation is
    exact. What the embedding keeps of the floating-point semantics is the divisor
    zero: Python's \<open>/\<close> raises \<open>ZeroDivisionError\<close>, numpy's \<open>/\<close> on a \<open>float64\<close>
    yields \<open>nan\<close> or an infinity (with a warning) and does not raise. Where the
    rounding of binary64 decides a property, the accumulator is embedded a second time
    with that rounding (\<open>b64_add\<close>, \<open>b64_zscore\<close>).
  \<^item> Lists have no bound on their length: an allocation never fails.
  \<^item> An exception is a value. A method that mutates \<open>self\<close> returns the state it
    leaves behind, also next to the exception it raises.
\<close>

subsection \<open>Errors and arithmetic\<close>

datatype error =
    InvalidRank int int  \<comment> \<open>\<open>ValueError("order %d out of %d invalid" % (rank, N))\<close>\<close>
  | NegativeDimensions   \<comment> \<open>\<open>ValueError\<close> of \<open>np.zeros\<close> for a negative length\<close>
  | ZeroDivisionError
  | IndexError

datatype float64 =
    Finite real
  | Infinite
  | NaN

text \<open>Python's true division of two floats.\<close>

definition py_truediv :: "real \<Rightarrow> real \<Rightarrow> error + real" where
  "py_truediv x y = (if y = 0 then Inl ZeroDivisionError else Inr (x / y))"

text \<open>numpy's true division of a \<open>float64\<close> scalar.\<close>

definition np_truediv :: "real \<Rightarrow> real \<Rightarrow> float64" where
  "np_truediv x y = (if y = 0 then (if x = 0 then NaN else Infinite) else Finite (x / y))"

subsection \<open>The batch statistic\<close>

text \<open>
  \<^verbatim>\<open>
  def infinite_U_zscore(sample, B):
      N = len(sample)
      return ((sample + 0.5).sum() - N * B * 0.5) / ((N / 12.0)**0.5 * B)
  \<close>
  \<open>sample\<close> is a numpy array, so the dividend is a \<open>float64\<close> and the division is
  numpy's. \<open>N / 12.0\<close> is not negative, so \<open>**0.5\<close> is the square root.
\<close>

definition infinite_U_zscore :: "real list \<Rightarrow> real \<Rightarrow> float64" where
  "infinite_U_zscore sample B =
     (let N = real (length sample)
      in np_truediv (sum_list (map (\<lambda>x. x + 0.5) sample) - N * B * 0.5)
                    (sqrt (N / 12) * B))"

subsection \<open>The accumulator\<close>

record UniformOrderAccumulator =
  histogram :: "32 word list"
  U :: real

type_synonym accumulator = UniformOrderAccumulator

text \<open>
  \<^verbatim>\<open>
  def __init__(self, N):
      self.histogram = np.zeros(N, dtype=np.uint32)
      self.U = 0.0
  \<close>
\<close>

definition init :: "int \<Rightarrow> error + accumulator" where
  "init N =
     (if N < 0 then Inl NegativeDimensions
      else Inr \<lparr>histogram = replicate (nat N) 0, U = 0\<rparr>)"

text \<open>
  \<^verbatim>\<open>
  def reset(self):
      self.histogram[:] = 0
      self.U = 0.0
  \<close>
\<close>

definition reset :: "accumulator \<Rightarrow> accumulator" where
  "reset s = s\<lparr>histogram := map (\<lambda>_. 0) (histogram s), U := 0\<rparr>"

text \<open>
  \<^verbatim>\<open>
  def expand(self, N):
      if N > self.histogram.size:
          old_hist = self.histogram
          self.histogram = np.zeros(N, dtype=np.uint32)
          self.histogram[:old_hist.size] = old_hist
  \<close>
\<close>

definition expand :: "accumulator \<Rightarrow> int \<Rightarrow> accumulator" where
  "expand s N =
     (if N > int (length (histogram s))
      then s\<lparr>histogram := histogram s @ replicate (nat N - length (histogram s)) 0\<rparr>
      else s)"

text \<open>
  \<^verbatim>\<open>
  def add(self, rank, N):
      if not 0 <= rank <= N:
          raise ValueError("order %d out of %d invalid" % (rank, N))
      if N >= self.histogram.size:
          self.expand(N + 1)
      self.U += (rank + 0.5) / N
      self.histogram[rank] += 1
      return self
  \<close>
  The result is \<open>Inr\<close> of the accumulator after the call, or \<open>Inl\<close> of the exception
  together with the accumulator as the call left it.
\<close>

definition add :: "accumulator \<Rightarrow> int \<Rightarrow> int \<Rightarrow> (error \<times> accumulator) + accumulator" where
  "add s rank N =
     (if \<not> (0 \<le> rank \<and> rank \<le> N) then Inl (InvalidRank rank N, s)
      else
        let s1 = (if N \<ge> int (length (histogram s)) then expand s (N + 1) else s)
        in case py_truediv (of_int rank + 0.5) (of_int N) of
             Inl e \<Rightarrow> Inl (e, s1)
           | Inr q \<Rightarrow>
               let s2 = s1\<lparr>U := U s1 + q\<rparr>
               in if nat rank < length (histogram s2)
                  then Inr (s2\<lparr>histogram :=
                              (histogram s2)[nat rank := histogram s2 ! nat rank + 1]\<rparr>)
                  else Inl (IndexError, s2))"

text \<open>\<open>self.histogram.sum()\<close>: the sum of a \<open>uint32\<close> array, accumulated in \<open>uint64\<close>.\<close>

definition histogram_sum :: "32 word list \<Rightarrow> 64 word" where
  "histogram_sum h = sum_list (map ucast h)"

text \<open>
  \<^verbatim>\<open>
  @property
  def zscore(self):
      N = self.histogram.sum()
      if N == 0:
          return 0.0
      m_U = N * 0.5
      sigma_U_corr = (N / 12.0)**0.5
      return (self.U - m_U) / sigma_U_corr
  \<close>
\<close>

definition zscore :: "accumulator \<Rightarrow> float64" where
  "zscore s =
     (let N = histogram_sum (histogram s)
      in if N = 0 then Finite 0
         else
           let m_U = real (unat N) * 0.5;
               sigma_U_corr = sqrt (real (unat N) / 12)
           in np_truediv (U s - m_U) sigma_U_corr)"

text \<open>
  \<^verbatim>\<open>
  def __len__(self):
      return self.histogram.sum()
  \<close>
\<close>

definition len :: "accumulator \<Rightarrow> 64 word" where
  "len s = histogram_sum (histogram s)"

text \<open>
  A client that feeds a sequence of observations \<open>(rank, N)\<close> to \<open>add\<close>, one call after
  the other, and stops at the first exception.
\<close>

fun replay :: "accumulator \<Rightarrow> (int \<times> int) list \<Rightarrow> (error \<times> accumulator) + accumulator" where
  "replay s [] = Inr s"
| "replay s ((rank, N) # obs) =
     (case add s rank N of Inl e \<Rightarrow> Inl e | Inr s' \<Rightarrow> replay s' obs)"

text \<open>An observation \<open>(rank, N)\<close> as the specification admits it.\<close>

definition valid_obs :: "int \<times> int \<Rightarrow> bool" where
  "valid_obs p = (0 \<le> fst p \<and> fst p \<le> snd p \<and> 1 \<le> snd p)"

subsection \<open>Auxiliary notions\<close>

text \<open>
  The histogram that \<open>add\<close> writes to: the one it found, grown to \<open>N + 1\<close> cells when it
  had at most \<open>N\<close>.
\<close>

definition grown :: "32 word list \<Rightarrow> int \<Rightarrow> 32 word list" where
  "grown h N = h @ replicate (nat (N + 1) - length h) 0"

text \<open>The sum of the counts as a natural number, without any wrap-around.\<close>

definition counts_total :: "32 word list \<Rightarrow> nat" where
  "counts_total h = sum_list (map unat h)"

text \<open>The count at rank \<open>i\<close>, zero beyond the capacity.\<close>

definition count_at :: "32 word list \<Rightarrow> nat \<Rightarrow> 32 word" where
  "count_at h i = (if i < length h then h ! i else 0)"

text \<open>What one observation adds to the running sum.\<close>

definition rank_term :: "int \<times> int \<Rightarrow> real" where
  "rank_term p = (of_int (fst p) + 0.5) / of_int (snd p)"

text \<open>The ranks of a sequence of observations, collected as the sample of the batch function.\<close>

definition ranks :: "(int \<times> int) list \<Rightarrow> real list" where
  "ranks obs = map (\<lambda>p. of_int (fst p)) obs"

subsection \<open>The accumulator in binary64 arithmetic\<close>

text \<open>
  Python's \<open>float\<close> and numpy's \<open>float64\<close> are IEEE 754 binary64 numbers: the result of
  an operation is the exact result rounded to the nearest number with a significand of 53
  bits, a tie going to the even significand. \<open>b64_round\<close> is this rounding on the reals.
  Its exponent range is not bounded: overflow and subnormal numbers are left out.
\<close>

definition round_half_even :: "real \<Rightarrow> int" where
  "round_half_even x =
     (let f = \<lfloor>x\<rfloor>; d = x - of_int f
      in if d < 1 / 2 then f
         else if 1 / 2 < d then f + 1
         else if even f then f else f + 1)"

definition b64_round :: "real \<Rightarrow> real" where
  "b64_round x =
     (if x = 0 then 0
      else
        let e = \<lfloor>log 2 \<bar>x\<bar>\<rfloor> - 52
        in of_int (round_half_even (x / 2 powr of_int e)) * 2 powr of_int e)"

text \<open>
  \<open>add\<close> and \<open>zscore\<close> once more, each floating-point operation of the source followed
  by the rounding: the conversion of an integer operand to a float, \<open>+\<close>, \<open>-\<close>, \<open>*\<close>,
  \<open>/\<close> and \<open>**0.5\<close>. The constants \<open>0.5\<close> and \<open>12.0\<close> are binary64 numbers. The
  histogram is treated as in \<open>add\<close>.
\<close>

definition b64_py_truediv :: "real \<Rightarrow> real \<Rightarrow> error + real" where
  "b64_py_truediv x y = (if y = 0 then Inl ZeroDivisionError else Inr (b64_round (x / y)))"

definition b64_np_truediv :: "real \<Rightarrow> real \<Rightarrow> float64" where
  "b64_np_truediv x y =
     (if y = 0 then (if x = 0 then NaN else Infinite) else Finite (b64_round (x / y)))"

definition b64_add :: "accumulator \<Rightarrow> int \<Rightarrow> int \<Rightarrow> (error \<times> accumulator) + accumulator" where
  "b64_add s rank N =
     (if \<not> (0 \<le> rank \<and> rank \<le> N) then Inl (InvalidRank rank N, s)
      else
        let s1 = (if N \<ge> int (length (histogram s)) then expand s (N + 1) else s)
        in case b64_py_truediv (b64_round (b64_round (of_int rank) + 0.5)) (b64_round (of_int N)) of
             Inl e \<Rightarrow> Inl (e, s1)
           | Inr q \<Rightarrow>
               let s2 = s1\<lparr>U := b64_round (U s1 + q)\<rparr>
               in if nat rank < length (histogram s2)
                  then Inr (s2\<lparr>histogram :=
                              (histogram s2)[nat rank := histogram s2 ! nat rank + 1]\<rparr>)
                  else Inl (IndexError, s2))"

definition b64_zscore :: "accumulator \<Rightarrow> float64" where
  "b64_zscore s =
     (let N = histogram_sum (histogram s)
      in if N = 0 then Finite 0
         else
           let m_U = b64_round (b64_round (real (unat N)) * 0.5);
               sigma_U_corr = b64_round (sqrt (b64_round (b64_round (real (unat N)) / 12)))
           in b64_np_truediv (b64_round (U s - m_U)) sigma_U_corr)"

fun b64_replay :: "accumulator \<Rightarrow> (int \<times> int) list \<Rightarrow> (error \<times> accumulator) + accumulator" where
  "b64_replay s [] = Inr s"
| "b64_replay s ((rank, N) # obs) =
     (case b64_add s rank N of Inl e \<Rightarrow> Inl e | Inr s' \<Rightarrow> b64_replay s' obs)"

section \<open>Properties\<close>

subsection \<open>Single calls of add\<close>

lemma length_grown: "length (grown h N) = max (length h) (nat (N + 1))"
  by (simp add: grown_def)

lemma grown_same: "nat (N + 1) \<le> length h \<Longrightarrow> grown h N = h"
  by (simp add: grown_def)

lemma add_ok:
  assumes "0 \<le> rank" "rank \<le> N" "N \<noteq> 0"
  shows "add s rank N =
           Inr \<lparr>histogram = (grown (histogram s) N)
                                [nat rank := grown (histogram s) N ! nat rank + 1],
                U = U s + (of_int rank + 0.5) / of_int N\<rparr>"
proof -
  have l: "nat rank < length (grown (histogram s) N)"
    using assms by (simp add: length_grown)
  have e: "histogram (if N \<ge> int (length (histogram s)) then expand s (N + 1) else s)
             = grown (histogram s) N"
    by (simp add: expand_def grown_def)
  have u: "U (if N \<ge> int (length (histogram s)) then expand s (N + 1) else s) = U s"
    by (simp add: expand_def)
  show ?thesis
    using assms l e u by (simp add: add_def py_truediv_def Let_def)
qed

lemma add_invalid: "rank < 0 \<or> N < rank \<Longrightarrow> add s rank N = Inl (InvalidRank rank N, s)"
  by (auto simp: add_def)

text \<open>
  C2: for a positive \<open>N\<close>, \<open>add\<close> raises the invalid-rank error exactly when
  \<open>rank < 0\<close> or \<open>rank > N\<close>, and then the accumulator it leaves behind is the one it
  was given; in every other case it succeeds. In particular \<open>add(0, 1)\<close> and \<open>add(N, N)\<close>
  succeed, \<open>add(N + 1, N)\<close> and \<open>add(-1, N)\<close> raise.
\<close>

theorem add_InvalidRank_iff:
  assumes "1 \<le> N"
  shows "((\<exists>s'. add s rank N = Inl (InvalidRank rank N, s')) \<longleftrightarrow> rank < 0 \<or> N < rank)
       \<and> (if rank < 0 \<or> N < rank then add s rank N = Inl (InvalidRank rank N, s)
          else \<exists>s'. add s rank N = Inr s')
       \<and> (\<exists>s'. add s 0 1 = Inr s')
       \<and> (\<exists>s'. add s N N = Inr s')
       \<and> add s (N + 1) N = Inl (InvalidRank (N + 1) N, s)
       \<and> add s (- 1) N = Inl (InvalidRank (- 1) N, s)"
proof -
  have ok: "0 \<le> r \<Longrightarrow> r \<le> N \<Longrightarrow> \<exists>s'. add s r N = Inr s'" for r
    using assms add_ok [of r N s] by simp
  have bad: "r < 0 \<or> N < r \<Longrightarrow> add s r N = Inl (InvalidRank r N, s)" for r
    by (rule add_invalid)
  have a: "(\<exists>s'. add s rank N = Inl (InvalidRank rank N, s')) \<longleftrightarrow> rank < 0 \<or> N < rank"
    using ok [of rank] bad [of rank] by (cases "rank < 0 \<or> N < rank") auto
  have b: "if rank < 0 \<or> N < rank then add s rank N = Inl (InvalidRank rank N, s)
           else \<exists>s'. add s rank N = Inr s'"
    using ok [of rank] bad [of rank] by (cases "rank < 0 \<or> N < rank") auto
  have c: "\<exists>s'. add s 0 1 = Inr s'"
    using add_ok [of 0 1 s] by simp
  have d: "\<exists>s'. add s N N = Inr s'"
    using ok [of N] assms by simp
  show ?thesis
    using a b c d bad [of "N + 1"] bad [of "- 1"] by simp
qed

theorem add_InvalidRank_iff_witness:
  "(1::int) \<le> 3
   \<and> add \<lparr>histogram = [], U = 0\<rparr> 4 3 = Inl (InvalidRank 4 3, \<lparr>histogram = [], U = 0\<rparr>)
   \<and> add \<lparr>histogram = [], U = 0\<rparr> (- 1) 3 = Inl (InvalidRank (- 1) 3, \<lparr>histogram = [], U = 0\<rparr>)
   \<and> (\<exists>s'. add \<lparr>histogram = [], U = 0\<rparr> 3 3 = Inr s')"
  using add_InvalidRank_iff [of 3 "\<lparr>histogram = [], U = 0\<rparr>" 4] by simp

text \<open>
  C10: \<open>add(0, 0)\<close> passes the rank check and raises a division-by-zero error, not
  the invalid-rank error. The accumulator it leaves behind has the running sum and the
  counts it had; only an empty histogram has been grown to one zero cell before the
  division.
\<close>

theorem add_zero_scale:
  "add s 0 0 =
     Inl (ZeroDivisionError, s\<lparr>histogram := if histogram s = [] then [0] else histogram s\<rparr>)"
  by (simp add: add_def py_truediv_def expand_def)

subsection \<open>Capacity\<close>

lemma length_expand: "length (histogram s) \<le> length (histogram (expand s n))"
  by (auto simp: expand_def)

lemma take_expand: "take (length (histogram s)) (histogram (expand s n)) = histogram s"
  by (simp add: expand_def)

lemma add_Inr_state:
  assumes "add s rank N = Inr s'"
  shows "0 \<le> rank \<and> rank \<le> N \<and> N \<noteq> 0
         \<and> s' = \<lparr>histogram = (grown (histogram s) N)
                                [nat rank := grown (histogram s) N ! nat rank + 1],
                 U = U s + (of_int rank + 0.5) / of_int N\<rparr>"
proof -
  have v: "0 \<le> rank \<and> rank \<le> N"
    using assms by (cases "0 \<le> rank \<and> rank \<le> N") (simp_all add: add_def)
  have n: "N \<noteq> 0"
    using assms v by (cases "N = 0") (simp_all add: add_def py_truediv_def)
  show ?thesis
    using assms v n add_ok [of rank N s] by simp
qed

lemma add_Inl_length:
  assumes "add s rank N = Inl (e, s')"
  shows "length (histogram s) \<le> length (histogram s')"
proof (cases "0 \<le> rank \<and> rank \<le> N")
  case False
  then show ?thesis
    using assms by (simp add: add_def)
next
  case True
  then have "N = 0"
    using assms add_ok [of rank N s] by (cases "N = 0") simp_all
  with True have "rank = 0" by simp
  then show ?thesis
    using assms \<open>N = 0\<close> by (auto simp: add_def py_truediv_def expand_def)
qed

text \<open>
  C7: a successful \<open>add(rank, N)\<close> that finds a capacity of at most \<open>N\<close> leaves a
  capacity of at least \<open>N + 1\<close>; the counts recorded before are found at their indices,
  the one at \<open>rank\<close> incremented by the observation and the others unchanged. The array
  that \<open>expand\<close> allocates starts with the old counts. No operation shrinks the capacity:
  not \<open>add\<close>, whether it succeeds or raises, not \<open>expand\<close>, not \<open>reset\<close>.
\<close>

theorem capacity_growth:
  "(\<forall>s'. add s rank N = Inr s' \<longrightarrow>
        length (histogram s) \<le> length (histogram s')
      \<and> (int (length (histogram s)) \<le> N \<longrightarrow> N + 1 \<le> int (length (histogram s')))
      \<and> (\<forall>i < length (histogram s).
            histogram s' ! i = histogram s ! i + (if i = nat rank then 1 else 0)))
   \<and> (\<forall>e s'. add s rank N = Inl (e, s') \<longrightarrow> length (histogram s) \<le> length (histogram s'))
   \<and> length (histogram s) \<le> length (histogram (expand s n))
   \<and> take (length (histogram s)) (histogram (expand s n)) = histogram s
   \<and> length (histogram (reset s)) = length (histogram s)"
proof -
  have a: "length (histogram s) \<le> length (histogram s')
      \<and> (int (length (histogram s)) \<le> N \<longrightarrow> N + 1 \<le> int (length (histogram s')))
      \<and> (\<forall>i < length (histogram s).
            histogram s' ! i = histogram s ! i + (if i = nat rank then 1 else 0))"
    if "add s rank N = Inr s'" for s'
  proof -
    define g where "g = grown (histogram s) N"
    from add_Inr_state [OF that] have v: "0 \<le> rank" "rank \<le> N"
      and h: "histogram s' = g[nat rank := g ! nat rank + 1]"
      by (simp_all add: g_def)
    have lg: "length g = max (length (histogram s)) (nat (N + 1))"
      by (simp add: g_def length_grown)
    have old: "g ! i = histogram s ! i" if "i < length (histogram s)" for i
      using that by (simp add: g_def grown_def nth_append)
    have 1: "length (histogram s) \<le> length (histogram s')"
      by (simp add: h lg)
    have 2: "int (length (histogram s)) \<le> N \<longrightarrow> N + 1 \<le> int (length (histogram s'))"
      using v by (simp add: h lg)
    have 3: "histogram s' ! i = histogram s ! i + (if i = nat rank then 1 else 0)"
      if "i < length (histogram s)" for i
    proof -
      have "i < length g" using that by (simp add: lg)
      then show ?thesis
        using old [OF that] by (auto simp: h nth_list_update)
    qed
    show ?thesis using 1 2 3 by blast
  qed
  show ?thesis
    using a add_Inl_length [of s rank N] length_expand [of s n] take_expand [of s n]
    by (simp add: reset_def)
qed

theorem capacity_growth_witness:
  "add \<lparr>histogram = [5, 7], U = 0\<rparr> 1 4 = Inr \<lparr>histogram = [5, 8, 0, 0, 0], U = 3 / 8\<rparr>
   \<and> int (length [5 :: 32 word, 7]) \<le> 4
   \<and> 4 + 1 \<le> int (length [5 :: 32 word, 8, 0, 0, 0])
   \<and> [5 :: 32 word, 8, 0, 0, 0] ! 0 = 5 \<and> [5 :: 32 word, 8, 0, 0, 0] ! 1 = 7 + 1
   \<and> add \<lparr>histogram = [], U = 0\<rparr> 0 0 = Inl (ZeroDivisionError, \<lparr>histogram = [0], U = 0\<rparr>)
   \<and> length (histogram \<lparr>histogram = [], U = 0\<rparr>) \<le> length (histogram \<lparr>histogram = [0], U = 0\<rparr>)"
proof -
  have a: "add \<lparr>histogram = [5, 7], U = 0\<rparr> 1 4 = Inr \<lparr>histogram = [5, 8, 0, 0, 0], U = 3 / 8\<rparr>"
    by (simp add: add_ok grown_def numeral_3_eq_3)
  have b: "add \<lparr>histogram = [], U = 0\<rparr> 0 0 = Inl (ZeroDivisionError, \<lparr>histogram = [0], U = 0\<rparr>)"
    by (simp add: add_def py_truediv_def expand_def)
  show ?thesis
    using a b capacity_growth [of "\<lparr>histogram = [5, 7], U = 0\<rparr>" 1 4 0]
      capacity_growth [of "\<lparr>histogram = [], U = 0\<rparr>" 0 0 0]
    by simp
qed

subsection \<open>zscore and reset\<close>

lemma histogram_sum_replicate_zero: "histogram_sum (replicate n 0) = 0"
  by (induction n) (simp_all add: histogram_sum_def)

lemma map_const_replicate: "map (\<lambda>_. c) xs = replicate (length xs) c"
  by (induction xs) simp_all


text \<open>
  C6: \<open>reset\<close> sets every count and the running sum to zero and keeps the capacity.
  The result is the accumulator that the constructor builds for this capacity, so
  \<open>zscore\<close> is \<open>0.0\<close> and the length is \<open>0\<close>.
\<close>

theorem reset_fresh:
  "histogram (reset s) = replicate (length (histogram s)) 0
   \<and> U (reset s) = 0
   \<and> length (histogram (reset s)) = length (histogram s)
   \<and> init (int (length (histogram s))) = Inr (reset s)
   \<and> zscore (reset s) = Finite 0
   \<and> len (reset s) = 0"
  by (simp add: reset_def init_def zscore_def len_def map_const_replicate
      histogram_sum_replicate_zero)

subsection \<open>The number of observations\<close>

lemma unat_ucast_32_64: "unat (ucast (a :: 32 word) :: 64 word) = unat a"
proof -
  have "unat a < 2 ^ 32"
    using unsigned_less [of a] by simp
  then have "unat a < 2 ^ 64"
    by (rule less_trans) simp
  then show ?thesis
    by (simp add: unsigned_ucast_eq take_bit_nat_eq_self)
qed

lemma histogram_sum_Cons: "histogram_sum (a # h) = ucast a + histogram_sum h"
  by (simp add: histogram_sum_def)

lemma counts_total_Cons: "counts_total (a # h) = unat a + counts_total h"
  by (simp add: counts_total_def)

lemma unat_histogram_sum: "unat (histogram_sum h) = counts_total h mod 2 ^ 64"
proof (induction h)
  case Nil
  then show ?case by (simp add: histogram_sum_def counts_total_def)
next
  case (Cons a h)
  have "unat (ucast a + histogram_sum h :: 64 word)
          = (unat (ucast a :: 64 word) + unat (histogram_sum h)) mod 2 ^ 64"
    by (simp add: unat_word_ariths(1))
  also have "\<dots> = (unat a + counts_total h mod 2 ^ 64) mod 2 ^ 64"
    by (simp only: unat_ucast_32_64 Cons.IH)
  also have "\<dots> = (unat a + counts_total h) mod 2 ^ 64"
    by (rule mod_add_right_eq)
  finally show ?case by (simp only: histogram_sum_Cons counts_total_Cons)
qed

lemma counts_total_grown: "counts_total (grown h N) = counts_total h"
  by (simp add: counts_total_def grown_def)

lemma counts_total_reset: "counts_total (histogram (reset s)) = 0"
  by (simp add: reset_def counts_total_def)

lemma nth_le_counts_total: "i < length h \<Longrightarrow> unat (h ! i) \<le> counts_total h"
  using elem_le_sum_list [of i "map unat h"] by (simp add: counts_total_def)

lemma counts_total_incr:
  assumes "i < length h" "counts_total h + 1 < 2 ^ 32"
  shows "counts_total (h[i := h ! i + 1]) = counts_total h + 1"
proof -
  have le: "unat (h ! i) \<le> counts_total h"
    using assms(1) by (rule nth_le_counts_total)
  then have "unat (h ! i) + 1 < 2 ^ 32"
    using assms(2) by linarith
  then have u: "unat (h ! i + 1) = unat (h ! i) + 1"
    using unat_add_lem [of "h ! i" 1] by simp
  have "counts_total (h[i := h ! i + 1]) = sum_list ((map unat h)[i := unat (h ! i + 1)])"
    by (simp only: counts_total_def map_update)
  also have "\<dots> = sum_list (map unat h) + unat (h ! i + 1) - map unat h ! i"
    using assms(1) by (simp only: sum_list_update length_map)
  also have "\<dots> = counts_total h + 1"
    using assms(1) u by (simp add: counts_total_def)
  finally show ?thesis .
qed

lemma add_counts_total:
  assumes "valid_obs (rank, N)" "counts_total (histogram s) + 1 < 2 ^ 32"
  shows "\<exists>s'. add s rank N = Inr s'
            \<and> counts_total (histogram s') = counts_total (histogram s) + 1"
proof -
  have v: "0 \<le> rank" "rank \<le> N" "N \<noteq> 0"
    using assms(1) by (simp_all add: valid_obs_def)
  have l: "nat rank < length (grown (histogram s) N)"
    using v by (simp add: length_grown)
  show ?thesis
    using add_ok [OF v, of s] counts_total_incr [OF l] assms(2)
    by (simp add: counts_total_grown)
qed

lemma replay_counts_total:
  assumes "list_all valid_obs obs" "counts_total (histogram s) + length obs < 2 ^ 32"
  shows "\<exists>s'. replay s obs = Inr s'
            \<and> counts_total (histogram s') = counts_total (histogram s) + length obs"
  using assms
proof (induction obs arbitrary: s)
  case Nil
  then show ?case by simp
next
  case (Cons p obs)
  obtain rank N where p: "p = (rank, N)" by (cases p)
  from Cons.prems have v: "valid_obs (rank, N)" and vs: "list_all valid_obs obs"
    by (simp_all add: p)
  from Cons.prems have b: "counts_total (histogram s) + 1 < 2 ^ 32"
    by simp
  from add_counts_total [OF v b] obtain s1 where
    s1: "add s rank N = Inr s1" "counts_total (histogram s1) = counts_total (histogram s) + 1"
    by blast
  have "counts_total (histogram s1) + length obs < 2 ^ 32"
    using Cons.prems(2) s1(2) by simp
  from Cons.IH [OF vs this] obtain s' where
    "replay s1 obs = Inr s'"
    "counts_total (histogram s') = counts_total (histogram s1) + length obs"
    by blast
  then show ?case
    using s1 by (simp add: p)
qed

text \<open>
  C3, for fewer than \<open>2 ^ 32\<close> observations: after \<open>reset\<close>, a sequence of fewer than
  \<open>2 ^ 32\<close> valid observations is accepted call by call, and the length query then
  returns the sum of the counts, which is the number of calls.
\<close>

theorem replay_len:
  assumes "list_all valid_obs obs" "length obs < 2 ^ 32"
  shows "\<exists>s'. replay (reset s) obs = Inr s'
            \<and> unat (len s') = counts_total (histogram s')
            \<and> unat (len s') = length obs"
proof -
  from replay_counts_total [of obs "reset s"] assms obtain s' where
    s': "replay (reset s) obs = Inr s'" "counts_total (histogram s') = length obs"
    by (auto simp: counts_total_reset)
  have "unat (len s') = length obs mod 2 ^ 64"
    using s'(2) by (simp add: len_def unat_histogram_sum)
  moreover have "length obs < (2::nat) ^ 64"
    using assms(2) by (rule less_trans) simp
  ultimately show ?thesis
    using s' by simp
qed

theorem replay_len_witness:
  "list_all valid_obs [(0, 1), (2, 2)] \<and> length [(0::int, 1::int), (2, 2)] < 2 ^ 32
   \<and> (\<exists>s'. replay (reset \<lparr>histogram = [7], U = 1\<rparr>) [(0, 1), (2, 2)] = Inr s'
            \<and> unat (len s') = counts_total (histogram s')
            \<and> unat (len s') = length [(0::int, 1::int), (2, 2)])"
  using replay_len [of "[(0, 1), (2, 2)]" "\<lparr>histogram = [7], U = 1\<rparr>"]
  by (simp add: valid_obs_def)

subsection \<open>Repeating one observation\<close>

lemma replay_replicate:
  assumes "0 \<le> rank" "rank \<le> N" "N \<noteq> 0"
  shows "replay s (replicate (Suc n) (rank, N)) =
           Inr \<lparr>histogram = (grown (histogram s) N)
                                [nat rank := grown (histogram s) N ! nat rank + of_nat (Suc n)],
                U = U s + real (Suc n) * ((of_int rank + 0.5) / of_int N)\<rparr>"
proof -
  define q :: real where "q = (of_int rank + 0.5) / of_int N"
  have "replay s (replicate (Suc n) (rank, N)) =
           Inr \<lparr>histogram = (grown (histogram s) N)
                                [nat rank := grown (histogram s) N ! nat rank + of_nat (Suc n)],
                U = U s + real (Suc n) * q\<rparr>"
  proof (induction n arbitrary: s)
    case 0
    show ?case
      using add_ok [OF assms, of s] by (simp add: q_def)
  next
    case (Suc n)
    define g where "g = grown (histogram s) N"
    define s1 where "s1 = \<lparr>histogram = g[nat rank := g ! nat rank + 1], U = U s + q\<rparr>"
    have l: "nat rank < length g" "nat (N + 1) \<le> length g"
      using assms by (simp_all add: g_def length_grown)
    have a: "add s rank N = Inr s1"
      using add_ok [OF assms, of s] by (simp add: s1_def g_def q_def)
    have g1: "grown (histogram s1) N = g[nat rank := g ! nat rank + 1]"
      using l by (simp add: s1_def grown_same)
    have "replay s (replicate (Suc (Suc n)) (rank, N)) = replay s1 (replicate (Suc n) (rank, N))"
      using a by simp
    also have "\<dots> = Inr \<lparr>histogram = g[nat rank := g ! nat rank + 1 + of_nat (Suc n)],
                          U = U s1 + real (Suc n) * q\<rparr>"
      using l by (simp only: Suc.IH g1) simp
    also have "\<dots> = Inr \<lparr>histogram = g[nat rank := g ! nat rank + of_nat (Suc (Suc n))],
                          U = U s + real (Suc (Suc n)) * q\<rparr>"
      by (simp add: s1_def algebra_simps)
    finally show ?case
      by (simp only: g_def)
  qed
  then show ?thesis
    by (simp only: q_def)
qed

text \<open>
  C3 as stated fails where a count wraps around: \<open>2 ^ 32\<close> calls \<open>add(0, 1)\<close> on a new
  accumulator of capacity \<open>0\<close> all succeed and leave the count of rank \<open>0\<close> at \<open>0\<close>, so the
  length query returns \<open>0\<close>.
\<close>

theorem replay_len_wraps:
  "replay \<lparr>histogram = [], U = 0\<rparr> (replicate 4294967296 (0, 1))
     = Inr \<lparr>histogram = [0, 0], U = 2147483648\<rparr>
   \<and> unat (len \<lparr>histogram = [0, 0], U = 2147483648\<rparr>) = 0
   \<and> length (replicate 4294967296 (0::int, 1::int)) = 4294967296"
proof -
  have n: "(4294967296::nat) = Suc 4294967295"
    by simp
  have w: "(4294967296 :: 32 word) = 0"
    by simp
  have "replay \<lparr>histogram = [], U = 0\<rparr> (replicate 4294967296 (0, 1))
          = Inr \<lparr>histogram = [0, 0], U = 2147483648\<rparr>"
    unfolding n
    by (subst replay_replicate) (simp_all add: grown_def w numeral_2_eq_2)
  then show ?thesis
    by (simp add: len_def histogram_sum_def)
qed

subsection \<open>A skewed sample\<close>

lemma zscore_of_total:
  assumes "counts_total (histogram s) = n" "0 < n" "n < 2 ^ 64"
  shows "zscore s = Finite ((U s - real n * 0.5) / sqrt (real n / 12))"
proof -
  have u: "unat (histogram_sum (histogram s)) = n"
    using assms by (simp add: unat_histogram_sum)
  then have "histogram_sum (histogram s) \<noteq> 0"
    using assms(2) by auto
  then show ?thesis
    using u assms(2) by (simp add: zscore_def Let_def np_truediv_def)
qed

lemma skew_bound: "3 < (9.5 - 5) / sqrt (10 / 12 :: real)"
proof -
  have "sqrt (10 / 12 :: real) < 3 / 2"
    by (rule real_less_lsqrt) (simp_all add: power2_eq_square)
  moreover have "0 < sqrt (10 / 12 :: real)"
    by simp
  ultimately show ?thesis
    by (simp add: pos_less_divide_eq)
qed

text \<open>
  C9: ten calls \<open>add(9, 10)\<close> on an empty accumulator all succeed, and \<open>zscore\<close> is then
  \<open>(9.5 - 5) / sqrt (10 / 12)\<close>, which is greater than \<open>3\<close>.
\<close>

theorem skewed_sample_zscore:
  "\<exists>s'. replay (reset s) (replicate 10 (9, 10)) = Inr s'
        \<and> zscore s' = Finite ((9.5 - 5) / sqrt (10 / 12))
        \<and> 3 < (9.5 - 5) / sqrt (10 / 12 :: real)"
proof -
  have v: "list_all valid_obs (replicate 10 (9, 10))"
    by (simp add: list_all_iff valid_obs_def)
  from replay_counts_total [OF v, of "reset s"] obtain s' where
    s': "replay (reset s) (replicate 10 (9, 10)) = Inr s'" "counts_total (histogram s') = 10"
    by (auto simp: counts_total_reset)
  have n: "replicate 10 (9::int, 10::int) = replicate (Suc 9) (9, 10)"
    by (simp add: eval_nat_numeral)
  have "replay (reset s) (replicate (Suc 9) (9, 10))
          = Inr \<lparr>histogram = (grown (histogram (reset s)) 10)
                               [nat 9 := grown (histogram (reset s)) 10 ! nat 9 + of_nat (Suc 9)],
                 U = U (reset s) + real (Suc 9) * ((of_int 9 + 0.5) / of_int 10)\<rparr>"
    by (rule replay_replicate) simp_all
  then have "Inr s' = (Inr \<lparr>histogram = (grown (histogram (reset s)) 10)
                               [nat 9 := grown (histogram (reset s)) 10 ! nat 9 + of_nat (Suc 9)],
                 U = U (reset s) + real (Suc 9) * ((of_int 9 + 0.5) / of_int 10)\<rparr>
              :: (error \<times> accumulator) + accumulator)"
    using s'(1) by (simp only: n)
  then have u: "U s' = 9.5"
    by (simp add: reset_def)
  have z: "zscore s' = Finite ((U s' - real 10 * 0.5) / sqrt (real 10 / 12))"
    by (rule zscore_of_total [OF s'(2)]) simp_all
  have "(U s' - real 10 * 0.5) / sqrt (real 10 / 12) = (9.5 - 5) / sqrt (10 / 12)"
    by (simp add: u)
  then have "zscore s' = Finite ((9.5 - 5) / sqrt (10 / 12))"
    by (simp only: z)
  then show ?thesis
    using s'(1) skew_bound by blast
qed

subsection \<open>The final state of a sequence of valid observations\<close>

lemma count_at_grown: "count_at (grown h N) i = count_at h i"
  by (auto simp: count_at_def grown_def nth_append)

lemma count_at_update:
  "j < length h \<Longrightarrow> count_at (h[j := h ! j + 1]) i = count_at h i + (if i = j then 1 else 0)"
  by (auto simp: count_at_def)

lemma add_valid_state:
  assumes "valid_obs (rank, N)"
  shows "\<exists>s'. add s rank N = Inr s'
          \<and> length (histogram s') = max (length (histogram s)) (nat (N + 1))
          \<and> (\<forall>i. count_at (histogram s') i
                    = count_at (histogram s) i + (if i = nat rank then 1 else 0))
          \<and> U s' = U s + rank_term (rank, N)"
proof -
  have v: "0 \<le> rank" "rank \<le> N" "N \<noteq> 0"
    using assms by (simp_all add: valid_obs_def)
  have l: "nat rank < length (grown (histogram s) N)"
    using v by (simp add: length_grown)
  show ?thesis
    using add_ok [OF v, of s] count_at_update [OF l]
    by (simp add: length_grown count_at_grown rank_term_def)
qed

lemma replay_valid_state:
  assumes "list_all valid_obs obs"
  shows "\<exists>s'. replay s obs = Inr s'
          \<and> length (histogram s')
              = Max (insert (length (histogram s)) ((\<lambda>p. nat (snd p + 1)) ` set obs))
          \<and> (\<forall>i. count_at (histogram s') i
                    = count_at (histogram s) i
                      + of_nat (length (filter (\<lambda>p. nat (fst p) = i) obs)))
          \<and> U s' = U s + sum_list (map rank_term obs)"
  using assms
proof (induction obs arbitrary: s)
  case Nil
  then show ?case by simp
next
  case (Cons p obs)
  obtain rank N where p: "p = (rank, N)" by (cases p)
  from Cons.prems have v: "valid_obs (rank, N)" and vs: "list_all valid_obs obs"
    by (simp_all add: p)
  from add_valid_state [OF v, of s] obtain s1 where
    a: "add s rank N = Inr s1"
    and l1: "length (histogram s1) = max (length (histogram s)) (nat (N + 1))"
    and c1: "\<And>i. count_at (histogram s1) i
                 = count_at (histogram s) i + (if i = nat rank then 1 else 0)"
    and u1: "U s1 = U s + rank_term (rank, N)"
    by blast
  from Cons.IH [OF vs, of s1] obtain s' where
    r: "replay s1 obs = Inr s'"
    and l': "length (histogram s')
              = Max (insert (length (histogram s1)) ((\<lambda>p. nat (snd p + 1)) ` set obs))"
    and c': "\<And>i. count_at (histogram s') i
                 = count_at (histogram s1) i
                   + of_nat (length (filter (\<lambda>p. nat (fst p) = i) obs))"
    and u': "U s' = U s1 + sum_list (map rank_term obs)"
    by blast
  have 1: "replay s (p # obs) = Inr s'"
    using a r by (simp add: p)
  have "Max (insert (max (length (histogram s)) (nat (N + 1))) ((\<lambda>p. nat (snd p + 1)) ` set obs))
          = Max (insert (length (histogram s))
                   (insert (nat (N + 1)) ((\<lambda>p. nat (snd p + 1)) ` set obs)))"
    by (cases "obs = []") (simp_all add: max.assoc)
  then have 2: "length (histogram s')
              = Max (insert (length (histogram s)) ((\<lambda>p. nat (snd p + 1)) ` set (p # obs)))"
    by (simp add: l' l1 p)
  have 3: "count_at (histogram s') i
                 = count_at (histogram s) i
                   + of_nat (length (filter (\<lambda>p. nat (fst p) = i) (p # obs)))" for i
    by (simp add: c' c1 p)
  have 4: "U s' = U s + sum_list (map rank_term (p # obs))"
    by (simp add: u' u1 p)
  show ?case
    using 1 2 3 4 by blast
qed

lemma histogram_eqI:
  assumes "length h = length h'" "\<And>i. count_at h i = count_at h' i"
  shows "h = h'"
proof (rule nth_equalityI)
  show "length h = length h'" by fact
next
  fix i assume "i < length h"
  then show "h ! i = h' ! i"
    using assms(1) assms(2) [of i] by (simp add: count_at_def)
qed

lemma replay_order_exact:
  assumes "mset obs = mset obs'" "list_all valid_obs obs"
  shows "\<exists>s'. replay s obs = Inr s' \<and> replay s obs' = Inr s'"
proof -
  have set_eq: "set obs = set obs'"
    using assms(1) by (rule mset_eq_setD)
  then have v': "list_all valid_obs obs'"
    using assms(2) by (simp add: list_all_iff)
  from replay_valid_state [OF assms(2), of s] obtain s1 where
    r1: "replay s obs = Inr s1"
    and l1: "length (histogram s1)
              = Max (insert (length (histogram s)) ((\<lambda>p. nat (snd p + 1)) ` set obs))"
    and c1: "\<And>i. count_at (histogram s1) i
                 = count_at (histogram s) i
                   + of_nat (length (filter (\<lambda>p. nat (fst p) = i) obs))"
    and u1: "U s1 = U s + sum_list (map rank_term obs)"
    by blast
  from replay_valid_state [OF v', of s] obtain s2 where
    r2: "replay s obs' = Inr s2"
    and l2: "length (histogram s2)
              = Max (insert (length (histogram s)) ((\<lambda>p. nat (snd p + 1)) ` set obs'))"
    and c2: "\<And>i. count_at (histogram s2) i
                 = count_at (histogram s) i
                   + of_nat (length (filter (\<lambda>p. nat (fst p) = i) obs'))"
    and u2: "U s2 = U s + sum_list (map rank_term obs')"
    by blast
  have f: "length (filter P obs) = length (filter P obs')" for P
  proof -
    have "mset (filter P obs) = mset (filter P obs')"
      using assms(1) by simp
    then show ?thesis
      by (rule mset_eq_length)
  qed
  have "mset (map rank_term obs) = mset (map rank_term obs')"
    using assms(1) by simp
  then have "sum_mset (mset (map rank_term obs)) = sum_mset (mset (map rank_term obs'))"
    by simp
  then have g: "sum_list (map rank_term obs) = sum_list (map rank_term obs')"
    by (simp only: sum_mset_sum_list)
  have "histogram s1 = histogram s2"
    by (rule histogram_eqI) (simp_all add: l1 l2 c1 c2 set_eq f)
  moreover have "U s1 = U s2"
    by (simp add: u1 u2 g)
  ultimately have "s1 = s2"
    by simp
  then show ?thesis
    using r1 r2 by simp
qed

subsection \<open>The order of the observations under rounding\<close>

text \<open>The rounding of \<open>x\<close>, given the binary exponent \<open>k\<close> of \<open>x\<close>.\<close>

lemma b64_eval:
  assumes "2 powr of_int k \<le> \<bar>x\<bar>" "\<bar>x\<bar> < 2 powr (of_int k + 1)"
    and "r = of_int (round_half_even (x / 2 powr of_int (k - 52))) * 2 powr of_int (k - 52)"
  shows "b64_round x = r"
proof -
  have "0 < \<bar>x\<bar>"
    using assms(1) by (rule less_le_trans [rotated]) simp
  then have x: "x \<noteq> 0" by simp
  have "\<lfloor>log 2 \<bar>x\<bar>\<rfloor> = k"
    using assms(1,2) \<open>0 < \<bar>x\<bar>\<close> by (simp add: floor_log_eq_powr_iff)
  then show ?thesis
    using x assms(3) by (simp add: b64_round_def)
qed

lemma b64_0: "b64_round 0 = 0"
  by (simp add: b64_round_def)

lemma b64_half: "b64_round (1 / 2) = 1 / 2"
  by (rule b64_eval [where k = "- 1"]) (simp_all add: round_half_even_def powr_neg_numeral Let_def)

lemma b64_1: "b64_round 1 = 1"
  by (rule b64_eval [where k = 0]) (simp_all add: round_half_even_def powr_neg_numeral Let_def)

lemma b64_3_2: "b64_round (3 / 2) = 3 / 2"
  by (rule b64_eval [where k = 0]) (simp_all add: round_half_even_def powr_neg_numeral Let_def)

lemma b64_2: "b64_round 2 = 2"
  by (rule b64_eval [where k = 1]) (simp_all add: round_half_even_def powr_neg_numeral Let_def)

lemma b64_3: "b64_round 3 = 3"
  by (rule b64_eval [where k = 1]) (simp_all add: round_half_even_def powr_neg_numeral Let_def)

lemma b64_quarter: "b64_round (1 / 4) = 1 / 4"
  by (rule b64_eval [where k = "- 2"]) (simp_all add: round_half_even_def powr_neg_numeral Let_def)

lemma b64_sixth: "b64_round (1 / 6) = 6004799503160661 / 36028797018963968"
  by (rule b64_eval [where k = "- 3"]) (simp_all add: round_half_even_def powr_neg_numeral Let_def)

lemmas b64_vals = b64_0 b64_half b64_1 b64_3_2 b64_2 b64_3 b64_quarter b64_sixth

lemma b64_sum_A: "b64_round (78062393541088597 / 36028797018963968)
                    = 4878899596318037 / 2251799813685248"
  by (rule b64_eval [where k = 1]) (simp_all add: round_half_even_def powr_neg_numeral Let_def)

lemma b64_sum_B1: "b64_round (60047995031606613 / 36028797018963968)
                    = 7505999378950827 / 4503599627370496"
  by (rule b64_eval [where k = 0]) (simp_all add: round_half_even_def powr_neg_numeral Let_def)

lemma b64_sum_B2: "b64_round (9757799192636075 / 4503599627370496)
                    = 2439449798159019 / 1125899906842624"
  by (rule b64_eval [where k = 1]) (simp_all add: round_half_even_def powr_neg_numeral Let_def)

lemma b64_diff_A: "b64_round (1501199875790165 / 2251799813685248)
                    = 1501199875790165 / 2251799813685248"
  by (rule b64_eval [where k = "- 1"]) (simp_all add: round_half_even_def powr_neg_numeral Let_def)

lemma b64_diff_B: "b64_round (750599937895083 / 1125899906842624)
                    = 750599937895083 / 1125899906842624"
  by (rule b64_eval [where k = "- 1"]) (simp_all add: round_half_even_def powr_neg_numeral Let_def)

lemma b64_z_A: "b64_round (1501199875790165 / 1125899906842624)
                    = 1501199875790165 / 1125899906842624"
  by (rule b64_eval [where k = 0]) (simp_all add: round_half_even_def powr_neg_numeral Let_def)

lemma b64_z_B: "b64_round (750599937895083 / 562949953421312)
                    = 750599937895083 / 562949953421312"
  by (rule b64_eval [where k = 0]) (simp_all add: round_half_even_def powr_neg_numeral Let_def)

lemmas b64_vals2 = b64_vals b64_sum_A b64_sum_B1 b64_sum_B2 b64_diff_A b64_diff_B b64_z_A b64_z_B

lemma sqrt_quarter: "sqrt (1 / 4) = 1 / 2"
  by (simp add: real_sqrt_divide)

lemma b64_replay_first_order:
  "b64_replay \<lparr>histogram = [], U = 0\<rparr> [(0, 1), (1, 1), (0, 3)]
     = Inr \<lparr>histogram = [2, 1, 0, 0], U = 4878899596318037 / 2251799813685248\<rparr>"
  by (simp add: b64_add_def b64_py_truediv_def expand_def b64_vals2 numeral_2_eq_2)

lemma b64_replay_second_order:
  "b64_replay \<lparr>histogram = [], U = 0\<rparr> [(1, 1), (0, 3), (0, 1)]
     = Inr \<lparr>histogram = [2, 1, 0, 0], U = 2439449798159019 / 1125899906842624\<rparr>"
  by (simp add: b64_add_def b64_py_truediv_def expand_def b64_vals2 numeral_2_eq_2)

lemma b64_zscore_first_order:
  "b64_zscore \<lparr>histogram = [2, 1, 0, 0], U = 4878899596318037 / 2251799813685248\<rparr>
     = Finite (1501199875790165 / 1125899906842624)"
  by (simp add: b64_zscore_def b64_np_truediv_def histogram_sum_def b64_vals2 sqrt_quarter)

lemma b64_zscore_second_order:
  "b64_zscore \<lparr>histogram = [2, 1, 0, 0], U = 2439449798159019 / 1125899906842624\<rparr>
     = Finite (750599937895083 / 562949953421312)"
  by (simp add: b64_zscore_def b64_np_truediv_def histogram_sum_def b64_vals2 sqrt_quarter)

text \<open>The rounding of a number other than zero is not zero, so a scale \<open>N\<close> other than zero is
  accepted as a divisor in binary64 arithmetic too, and both embeddings keep the same counts.\<close>

lemma round_half_even_cases: "round_half_even y = \<lfloor>y\<rfloor> \<or> round_half_even y = \<lfloor>y\<rfloor> + 1"
  by (simp add: round_half_even_def Let_def)

lemma round_half_even_nonzero:
  assumes "1 \<le> \<bar>y\<bar>"
  shows "round_half_even y \<noteq> 0"
proof (cases "0 \<le> y")
  case True
  then have "1 \<le> \<lfloor>y\<rfloor>" using assms by (simp add: le_floor_iff)
  then show ?thesis using round_half_even_cases [of y] by linarith
next
  case False
  then have "y \<le> - 1" using assms by simp
  then have "\<lfloor>y\<rfloor> \<le> - 1" by (simp add: floor_le_iff)
  moreover have "round_half_even y = \<lfloor>y\<rfloor>" if "\<lfloor>y\<rfloor> = - 1"
  proof -
    have "y = - 1" using that \<open>y \<le> - 1\<close> by linarith
    then show ?thesis by (simp add: round_half_even_def)
  qed
  ultimately show ?thesis using round_half_even_cases [of y] by auto
qed

lemma b64_nonzero:
  assumes "x \<noteq> 0"
  shows "b64_round x \<noteq> 0"
proof -
  define k where "k = \<lfloor>log 2 \<bar>x\<bar>\<rfloor>"
  have pos: "0 < \<bar>x\<bar>" using assms by simp
  have "2 powr of_int k \<le> \<bar>x\<bar>"
    using pos floor_log_eq_powr_iff [of "\<bar>x\<bar>" 2 k] by (simp add: k_def)
  moreover have "2 powr of_int (k - 52) \<le> 2 powr real_of_int k"
    by (rule powr_mono) simp_all
  ultimately have "2 powr of_int (k - 52) \<le> \<bar>x\<bar>"
    by (rule order_trans [rotated])
  then have "1 \<le> \<bar>x / 2 powr of_int (k - 52)\<bar>"
    by (simp add: le_divide_eq)
  then have "round_half_even (x / 2 powr of_int (k - 52)) \<noteq> 0"
    by (rule round_half_even_nonzero)
  then show ?thesis
    using assms by (simp add: b64_round_def k_def)
qed

lemma b64_add_histogram:
  assumes "histogram t = histogram s" "0 \<le> rank" "rank \<le> N" "N \<noteq> 0"
  shows "\<exists>s' t'. add s rank N = Inr s' \<and> b64_add t rank N = Inr t'
                \<and> histogram t' = histogram s'"
proof -
  have l: "nat rank < length (grown (histogram s) N)"
    using assms by (simp add: length_grown)
  have e: "histogram (if N \<ge> int (length (histogram s)) then expand t (N + 1) else t)
             = grown (histogram s) N"
    using assms(1) by (simp add: expand_def grown_def)
  have n: "b64_round (of_int N) \<noteq> 0"
    using assms(4) by (simp add: b64_nonzero)
  show ?thesis
    using assms l e n add_ok [of rank N s]
    by (simp add: b64_add_def b64_py_truediv_def Let_def)
qed

lemma b64_replay_histogram:
  assumes "list_all valid_obs obs" "histogram t = histogram s"
  shows "\<exists>s' t'. replay s obs = Inr s' \<and> b64_replay t obs = Inr t'
                \<and> histogram t' = histogram s'"
  using assms
proof (induction obs arbitrary: s t)
  case Nil
  then show ?case by simp
next
  case (Cons p obs)
  obtain rank N where p: "p = (rank, N)" by (cases p)
  from Cons.prems have vs: "list_all valid_obs obs"
    by simp
  from Cons.prems have v: "0 \<le> rank" "rank \<le> N" "N \<noteq> 0"
    by (simp_all add: p valid_obs_def)
  from b64_add_histogram [OF Cons.prems(2) v] obtain s1 t1 where
    a: "add s rank N = Inr s1" "b64_add t rank N = Inr t1" "histogram t1 = histogram s1"
    by blast
  from Cons.IH [OF vs a(3)] obtain s' t' where
    "replay s1 obs = Inr s'" "b64_replay t1 obs = Inr t'" "histogram t' = histogram s'"
    by blast
  then show ?case
    using a by (simp add: p)
qed

text \<open>
  C5, with the part that rounding leaves: two sequences of valid observations with the
  same multiset of elements are both accepted and leave the same counts and capacity, in
  exact and in binary64 arithmetic; in exact arithmetic they leave the same running sum
  too, hence the same final state and the same \<open>zscore\<close>.
\<close>

theorem replay_order_invariant:
  assumes "mset obs = mset obs'" "list_all valid_obs obs"
  shows "\<exists>s' t t'. replay s obs = Inr s' \<and> replay s obs' = Inr s'
           \<and> b64_replay s obs = Inr t \<and> b64_replay s obs' = Inr t'
           \<and> histogram t = histogram s' \<and> histogram t' = histogram s'"
proof -
  have "set obs = set obs'"
    using assms(1) by (rule mset_eq_setD)
  then have v': "list_all valid_obs obs'"
    using assms(2) by (simp add: list_all_iff)
  from replay_order_exact [OF assms] obtain s' where
    e: "replay s obs = Inr s'" "replay s obs' = Inr s'"
    by blast
  from b64_replay_histogram [OF assms(2), of s s] e(1) obtain t where
    t: "b64_replay s obs = Inr t" "histogram t = histogram s'"
    by auto
  from b64_replay_histogram [OF v', of s s] e(2) obtain t' where
    t': "b64_replay s obs' = Inr t'" "histogram t' = histogram s'"
    by auto
  show ?thesis
    using e t t' by blast
qed

theorem replay_order_invariant_witness:
  "mset [(0, 1), (2, 2), (1, 5)] = mset [(1, 5), (0::int, 1::int), (2, 2)]
   \<and> list_all valid_obs [(0, 1), (2, 2), (1, 5)]
   \<and> (\<exists>s' t t'. replay \<lparr>histogram = [3], U = 1\<rparr> [(0, 1), (2, 2), (1, 5)] = Inr s'
         \<and> replay \<lparr>histogram = [3], U = 1\<rparr> [(1, 5), (0, 1), (2, 2)] = Inr s'
         \<and> b64_replay \<lparr>histogram = [3], U = 1\<rparr> [(0, 1), (2, 2), (1, 5)] = Inr t
         \<and> b64_replay \<lparr>histogram = [3], U = 1\<rparr> [(1, 5), (0, 1), (2, 2)] = Inr t'
         \<and> histogram t = histogram s' \<and> histogram t' = histogram s')"
  using replay_order_invariant
          [of "[(0, 1), (2, 2), (1, 5)]" "[(1, 5), (0, 1), (2, 2)]" "\<lparr>histogram = [3], U = 1\<rparr>"]
  by (simp add: valid_obs_def)

text \<open>
  C5 as stated fails in binary64 arithmetic, where addition is not associative: on a new
  accumulator the calls \<open>add(0, 1)\<close>, \<open>add(1, 1)\<close>, \<open>add(0, 3)\<close> in this order lead to
  the \<open>zscore\<close> \<open>1.333333333333333\<close>, and in the order \<open>add(1, 1)\<close>, \<open>add(0, 3)\<close>,
  \<open>add(0, 1)\<close> to \<open>1.333333333333334\<close>. The two differ by \<open>2\<close> to the power \<open>-50\<close>.
\<close>

theorem b64_order_matters:
  "mset [(0, 1), (1, 1), (0, 3)] = mset [(1, 1), (0, 3), (0::int, 1::int)]
   \<and> list_all valid_obs [(0, 1), (1, 1), (0, 3)]
   \<and> b64_replay \<lparr>histogram = [], U = 0\<rparr> [(0, 1), (1, 1), (0, 3)]
       = Inr \<lparr>histogram = [2, 1, 0, 0], U = 4878899596318037 / 2251799813685248\<rparr>
   \<and> b64_replay \<lparr>histogram = [], U = 0\<rparr> [(1, 1), (0, 3), (0, 1)]
       = Inr \<lparr>histogram = [2, 1, 0, 0], U = 2439449798159019 / 1125899906842624\<rparr>
   \<and> b64_zscore \<lparr>histogram = [2, 1, 0, 0], U = 4878899596318037 / 2251799813685248\<rparr>
       = Finite (1501199875790165 / 1125899906842624)
   \<and> b64_zscore \<lparr>histogram = [2, 1, 0, 0], U = 2439449798159019 / 1125899906842624\<rparr>
       = Finite (750599937895083 / 562949953421312)
   \<and> (1501199875790165 / 1125899906842624 :: real) \<noteq> 750599937895083 / 562949953421312"
proof -
  have m: "mset [(0, 1), (1, 1), (0, 3)] = mset [(1, 1), (0, 3), (0::int, 1::int)]"
    by simp
  have v: "list_all valid_obs [(0, 1), (1, 1), (0, 3)]"
    by (simp add: valid_obs_def)
  have n: "(1501199875790165 / 1125899906842624 :: real) \<noteq> 750599937895083 / 562949953421312"
    by simp
  show ?thesis
    using m v b64_replay_first_order b64_replay_second_order
      b64_zscore_first_order b64_zscore_second_order n
    by (intro conjI)
qed

subsection \<open>The batch statistic and the accumulator\<close>

lemma sum_terms_fixed_scale:
  assumes "list_all (\<lambda>p. snd p = B) obs"
  shows "sum_list (map rank_term obs) = sum_list (map (\<lambda>x. x + 0.5) (ranks obs)) / of_int B"
  using assms
  by (induction obs) (simp_all add: rank_term_def ranks_def add_divide_distrib)

lemma infinite_U_zscore_finite:
  assumes "sample \<noteq> []" "B \<noteq> 0"
  shows "infinite_U_zscore sample B =
           Finite ((sum_list (map (\<lambda>x. x + 0.5) sample) / B - real (length sample) * 0.5)
                   / sqrt (real (length sample) / 12))"
proof -
  define S where "S = sum_list (map (\<lambda>x. x + 0.5) sample)"
  define n where "n = real (length sample)"
  define d where "d = sqrt (n / 12)"
  have "0 < n"
    using assms(1) by (simp add: n_def)
  then have d: "d \<noteq> 0"
    by (simp add: d_def)
  have "(S - n * B * 0.5) / (d * B) = (S / B - n * 0.5) / d"
    using d assms(2) by (simp add: field_simps)
  then show ?thesis
    using d assms(2) by (simp add: infinite_U_zscore_def Let_def np_truediv_def S_def n_def d_def)
qed

text \<open>
  C4, for a non-empty sequence of fewer than \<open>2 ^ 32\<close> observations: when all
  observations are valid and share the scale \<open>B\<close>, the batch statistic of their ranks
  for \<open>B\<close> is the \<open>zscore\<close> of the accumulator that was reset and fed the observations.
\<close>

theorem batch_agrees_with_accumulator:
  assumes "obs \<noteq> []" "length obs < 2 ^ 32"
    and "list_all valid_obs obs" "list_all (\<lambda>p. snd p = B) obs"
  shows "\<exists>s'. replay (reset s) obs = Inr s'
            \<and> infinite_U_zscore (ranks obs) (of_int B) = zscore s'"
proof -
  from replay_valid_state [OF assms(3), of "reset s"] obtain s' where
    r: "replay (reset s) obs = Inr s'"
    and u: "U s' = U (reset s) + sum_list (map rank_term obs)"
    by blast
  from replay_counts_total [OF assms(3), of "reset s"] r assms(2)
  have c: "counts_total (histogram s') = length obs"
    by (auto simp: counts_total_reset)
  have n: "0 < length obs"
    using assms(1) by simp
  have n64: "length obs < 2 ^ 64"
    using assms(2) by (rule less_trans) simp
  have "valid_obs (hd obs)" "snd (hd obs) = B"
    using assms by (cases obs; simp)+
  then have B: "real_of_int B \<noteq> 0"
    by (simp add: valid_obs_def)
  have "U s' = sum_list (map (\<lambda>x. x + 0.5) (ranks obs)) / of_int B"
    using u sum_terms_fixed_scale [OF assms(4)] by (simp add: reset_def)
  then have "zscore s' =
       Finite ((sum_list (map (\<lambda>x. x + 0.5) (ranks obs)) / of_int B - real (length obs) * 0.5)
                / sqrt (real (length obs) / 12))"
    by (simp only: zscore_of_total [OF c n n64])
  moreover have "infinite_U_zscore (ranks obs) (of_int B) =
       Finite ((sum_list (map (\<lambda>x. x + 0.5) (ranks obs)) / of_int B
                  - real (length (ranks obs)) * 0.5)
                / sqrt (real (length (ranks obs)) / 12))"
    by (rule infinite_U_zscore_finite) (use assms(1) B in \<open>simp_all add: ranks_def\<close>)
  ultimately show ?thesis
    using r by (simp add: ranks_def)
qed

theorem batch_agrees_with_accumulator_witness:
  "[(0, 2), (2, 2)] \<noteq> [] \<and> length [(0::int, 2::int), (2, 2)] < 2 ^ 32
   \<and> list_all valid_obs [(0, 2), (2, 2)] \<and> list_all (\<lambda>p. snd p = 2) [(0::int, 2::int), (2, 2)]
   \<and> (\<exists>s'. replay (reset \<lparr>histogram = [], U = 0\<rparr>) [(0, 2), (2, 2)] = Inr s'
            \<and> infinite_U_zscore (ranks [(0, 2), (2, 2)]) (of_int 2) = zscore s')"
  using batch_agrees_with_accumulator [of "[(0, 2), (2, 2)]" 2 "\<lparr>histogram = [], U = 0\<rparr>"]
  by (simp add: valid_obs_def)

text \<open>
  C4 as stated fails at both ends. For no observation at all \<open>zscore\<close> is \<open>0.0\<close> and the
  batch statistic is \<open>nan\<close>. After \<open>2 ^ 32\<close> calls \<open>add(1, 1)\<close> the count of rank \<open>1\<close> has
  wrapped to \<open>0\<close>, so \<open>zscore\<close> is \<open>0.0\<close>, and the batch statistic is not.
\<close>

theorem batch_disagrees:
  "replay \<lparr>histogram = [], U = 0\<rparr> [] = Inr \<lparr>histogram = [], U = 0\<rparr>
   \<and> zscore \<lparr>histogram = [], U = 0\<rparr> = Finite 0
   \<and> infinite_U_zscore (ranks []) 10 = NaN
   \<and> replay \<lparr>histogram = [], U = 0\<rparr> (replicate 4294967296 (1, 1))
        = Inr \<lparr>histogram = [0, 0], U = 6442450944\<rparr>
   \<and> zscore \<lparr>histogram = [0, 0], U = 6442450944\<rparr> = Finite 0
   \<and> infinite_U_zscore (ranks (replicate 4294967296 (1, 1))) 1
        = Finite (4294967296 / sqrt (4294967296 / 12))
   \<and> 4294967296 / sqrt (4294967296 / 12) \<noteq> (0::real)"
proof -
  have n: "replicate 4294967296 (1::int, 1::int) = replicate (Suc 4294967295) (1, 1)"
    by (simp add: replicate_Suc [symmetric] del: replicate_Suc)
  have w: "(4294967296 :: 32 word) = 0"
    by simp
  have a: "replay \<lparr>histogram = [], U = 0\<rparr> (replicate 4294967296 (1, 1))
        = Inr \<lparr>histogram = [0, 0], U = 6442450944\<rparr>"
    unfolding n
    by (subst replay_replicate) (simp_all add: grown_def w numeral_2_eq_2)
  have b: "zscore \<lparr>histogram = [], U = 0\<rparr> = Finite 0"
    "zscore \<lparr>histogram = [0, 0], U = 6442450944\<rparr> = Finite 0"
    by (simp_all add: zscore_def histogram_sum_def)
  have r: "ranks (replicate 4294967296 (1, 1)) = replicate 4294967296 1"
    by (simp add: ranks_def)
  have c: "infinite_U_zscore (ranks (replicate 4294967296 (1, 1))) 1
        = Finite (4294967296 / sqrt (4294967296 / 12))"
    unfolding r
    by (subst infinite_U_zscore_finite) (simp_all add: sum_list_replicate)
  have d: "4294967296 / sqrt (4294967296 / 12) \<noteq> (0::real)"
    by simp
  show ?thesis
    using a b c d by (simp add: ranks_def infinite_U_zscore_def np_truediv_def)
qed

text \<open>
  C8: the batch statistic divides by \<open>sqrt (N / 12) * B\<close>, which is zero for the empty
  sample: the division \<open>0.0 / 0.0\<close> is reached and the result is \<open>nan\<close>.
\<close>

theorem infinite_U_zscore_empty: "infinite_U_zscore [] B = NaN"
  by (simp add: infinite_U_zscore_def np_truediv_def)

end
